theory Spec2Isabelle
  imports
    Complex_Main
    "HOL-Library.Sublist"
    "HOL-Library.Multiset"
    "HOL-Library.Char_ord"
    "HOL-Library.List_Lexorder"
    "HOL-Library.Log_Nat"
begin

section \<open>The clinic bookings page (\<open>rezerwacje/page.tsx\<close>)\<close>

text \<open>
  The page is one server function, \<open>ClinicBookingsPage\<close>: it resolves the current
  user, looks the user's clinic up, derives a limit, an offset, a sort term and a filter
  from the query string, reads a page of bookings and a count inside one transaction, and
  hands both to the table shell. The development below follows the function statement by
  statement. What the function calls but does not contain is modelled next to the place
  that uses it: the JavaScript built-ins by what the language fixes, and the query builder
  and the data store, whose engine the source does not name, with a record of parameters
  (\<open>data_store\<close>) for everything that differs from one engine to another.
\<close>

subsection \<open>JavaScript numbers\<close>

text \<open>
  A number of the page is \<open>NaN\<close>, an infinity, the negative zero, or a finite value
  (a rational); \<open>Fin 0\<close> is the positive zero. The result of reading a number, of a
  difference and of a product is rounded to the nearest binary64 value, as the language
  does (\<open>round64\<close>).
\<close>

datatype number = NaN | PosInf | NegInf | NegZero | Fin rat

text \<open>\<open>pow2 k\<close> is \<open>2\<close> to the power \<open>k\<close>, for a \<open>k\<close> of either sign.\<close>

definition pow2 :: "int \<Rightarrow> rat" where
  "pow2 k = (if 0 \<le> k then 2 ^ nat k else 1 / 2 ^ nat (- k))"

text \<open>
  The binary exponent of a positive rational \<open>a\<close>: the \<open>e\<close> with
  \<open>pow2 e \<le> a < pow2 (e + 1)\<close>, found from the bit lengths of numerator and
  denominator.
\<close>

definition ilog2 :: "rat \<Rightarrow> int" where
  "ilog2 a =
     (let (x, y) = quotient_of a;
          d = bitlen x - bitlen y
      in if pow2 d \<le> a then d else d - 1)"

text \<open>Rounding to the nearest integer, a tie going to the even one.\<close>

definition round_even :: "rat \<Rightarrow> int" where
  "round_even x =
     (let f = \<lfloor>x\<rfloor>; r = x - of_int f
      in if r < 1 / 2 then f
         else if 1 / 2 < r then f + 1
         else if even f then f else f + 1)"

text \<open>
  The binary64 value nearest to a rational: 53 significant bits, exponents from
  \<open>- 1022\<close> (below it the spacing stays that of the subnormal numbers), a tie going to
  the even significand, and an infinity from \<open>pow2 1024\<close> on. A value that rounds to
  zero keeps its sign.
\<close>

definition round64 :: "rat \<Rightarrow> number" where
  "round64 q =
     (if q = 0 then Fin 0
      else
        (let a = \<bar>q\<bar>;
             p = max (ilog2 a) (- 1022) - 52;
             m = round_even (a / pow2 p);
             v = of_int m * pow2 p
         in if pow2 1024 \<le> v then (if q < 0 then NegInf else PosInf)
            else if v = 0 then (if q < 0 then NegZero else Fin 0)
            else Fin (if q < 0 then - v else v)))"

fun is_zero :: "number \<Rightarrow> bool" where
  "is_zero NegZero = True"
| "is_zero (Fin q) = (q = 0)"
| "is_zero _ = False"

fun is_inf :: "number \<Rightarrow> bool" where
  "is_inf PosInf = True"
| "is_inf NegInf = True"
| "is_inf _ = False"

text \<open>The sign bit.\<close>

fun is_neg :: "number \<Rightarrow> bool" where
  "is_neg NegInf = True"
| "is_neg NegZero = True"
| "is_neg (Fin q) = (q < 0)"
| "is_neg _ = False"

fun fin_val :: "number \<Rightarrow> rat" where
  "fin_val (Fin q) = q"
| "fin_val _ = 0"

text \<open>\<open>x > 0\<close>: false for \<open>NaN\<close> and for both zeros.\<close>

fun js_gt_zero :: "number \<Rightarrow> bool" where
  "js_gt_zero PosInf = True"
| "js_gt_zero (Fin q) = (0 < q)"
| "js_gt_zero _ = False"

text \<open>\<open>x - y\<close>: equal finite operands give the positive zero.\<close>

fun js_sub :: "number \<Rightarrow> number \<Rightarrow> number" where
  "js_sub NaN _ = NaN"
| "js_sub _ NaN = NaN"
| "js_sub PosInf PosInf = NaN"
| "js_sub NegInf NegInf = NaN"
| "js_sub PosInf _ = PosInf"
| "js_sub NegInf _ = NegInf"
| "js_sub _ PosInf = NegInf"
| "js_sub _ NegInf = PosInf"
| "js_sub NegZero NegZero = Fin 0"
| "js_sub NegZero (Fin q) = (if q = 0 then NegZero else Fin (- q))"
| "js_sub (Fin p) NegZero = Fin p"
| "js_sub (Fin p) (Fin q) = round64 (p - q)"

text \<open>\<open>x * y\<close>: the sign of the result is the exclusive or of the signs.\<close>

definition js_mul :: "number \<Rightarrow> number \<Rightarrow> number" where
  "js_mul x y =
     (if x = NaN \<or> y = NaN then NaN
      else if (is_zero x \<and> is_inf y) \<or> (is_inf x \<and> is_zero y) then NaN
      else if is_inf x \<or> is_inf y then (if is_neg x \<noteq> is_neg y then NegInf else PosInf)
      else if is_zero x \<or> is_zero y then (if is_neg x \<noteq> is_neg y then NegZero else Fin 0)
      else round64 (fin_val x * fin_val y))"

text \<open>
  \<open>x / y\<close>: a division by a zero gives an infinity, or \<open>NaN\<close> for \<open>0 / 0\<close>.
  The one division of the page is of a count of rows, which is far below \<open>2 ^ 53\<close>,
  and is followed by \<open>Math.ceil\<close>; for such a count the ceiling of the rounded
  quotient is the ceiling of the exact one, and the quotient is kept exact here.
\<close>

definition js_div :: "number \<Rightarrow> number \<Rightarrow> number" where
  "js_div x y =
     (if x = NaN \<or> y = NaN then NaN
      else if (is_zero x \<and> is_zero y) \<or> (is_inf x \<and> is_inf y) then NaN
      else if is_inf x \<or> is_zero y then (if is_neg x \<noteq> is_neg y then NegInf else PosInf)
      else if is_zero x \<or> is_inf y then (if is_neg x \<noteq> is_neg y then NegZero else Fin 0)
      else Fin (fin_val x / fin_val y))"

text \<open>\<open>Math.ceil\<close>: a value strictly between \<open>-1\<close> and \<open>0\<close> goes to the negative zero.\<close>

fun Math_ceil :: "number \<Rightarrow> number" where
  "Math_ceil (Fin q) = (if - 1 < q \<and> q < 0 then NegZero else Fin (of_int \<lceil>q\<rceil>))"
| "Math_ceil x = x"

subsection \<open>\<open>parseInt\<close> and \<open>String.prototype.split\<close>\<close>

text \<open>
  A string is a list of code units below 256. \<open>parseInt\<close> with no radix skips leading
  white space, reads a sign, reads the prefix \<open>0x\<close> or \<open>0X\<close> (then the radix is 16,
  otherwise 10), and takes the longest run of digits of that radix; with no digit the
  result is \<open>NaN\<close>. A zero read after a minus sign is the negative zero; any other
  integer is rounded to binary64, so a long run of digits gives an infinity.
\<close>

definition is_white_space :: "char \<Rightarrow> bool" where
  "is_white_space c = (of_char c \<in> {9, 10, 11, 12, 13, 32, 160 :: nat})"

definition digit_of :: "char \<Rightarrow> nat" where
  "digit_of c =
     (let n = (of_char c :: nat) in
      if 48 \<le> n \<and> n \<le> 57 then n - 48
      else if 97 \<le> n \<and> n \<le> 122 then n - 87
      else if 65 \<le> n \<and> n \<le> 90 then n - 55
      else 36)"

fun strip_sign :: "string \<Rightarrow> bool \<times> string" where
  "strip_sign [] = (False, [])"
| "strip_sign (c # cs) =
     (if c = CHR ''-'' then (True, cs)
      else if c = CHR ''+'' then (False, cs)
      else (False, c # cs))"

fun strip_prefix :: "string \<Rightarrow> nat \<times> string" where
  "strip_prefix (a # b # cs) =
     (if a = CHR ''0'' \<and> (b = CHR ''x'' \<or> b = CHR ''X'') then (16, cs)
      else (10, a # b # cs))"
| "strip_prefix cs = (10, cs)"

definition parseInt :: "string \<Rightarrow> number" where
  "parseInt inputString =
     (let S = dropWhile is_white_space inputString;
          (negative, S1) = strip_sign S;
          (R, S2) = strip_prefix S1;
          Z = takeWhile (\<lambda>c. digit_of c < R) S2;
          mathInt = foldl (\<lambda>acc c. acc * int R + int (digit_of c)) (0 :: int) Z
      in if Z = [] then NaN
         else if mathInt = 0 then (if negative then NegZero else Fin 0)
         else if negative then round64 (- of_int mathInt)
         else round64 (of_int mathInt))"

text \<open>
  \<open>s.split(sep)\<close> for a separator of one code unit: the pieces between the
  occurrences of the separator, so the empty string gives one empty piece.
\<close>

fun String_split :: "char \<Rightarrow> string \<Rightarrow> string list" where
  "String_split sep [] = [[]]"
| "String_split sep (c # cs) =
     (if c = sep then [] # String_split sep cs
      else (case String_split sep cs of
              [] \<Rightarrow> [[c]]
            | w # ws \<Rightarrow> (c # w) # ws))"

subsection \<open>Query parameters\<close>

text \<open>
  A value of \<open>searchParams\<close> is a string, an array of strings, or \<open>undefined\<close>.
  The page destructures eleven keys; \<open>date\<close>, \<open>time\<close> and \<open>slot\<close> are read and
  never used.
\<close>

datatype param = Undefined | Str string | Arr "string list"

record searchParams =
  sp_page :: param
  sp_per_page :: param
  sp_sort :: param
  sp_from :: param
  sp_to :: param
  sp_lastName :: param
  sp_type :: param
  sp_date :: param
  sp_time :: param
  sp_slot :: param
  sp_email :: param

text \<open>\<open>const limit = typeof per_page === "string" ? parseInt(per_page) : 10\<close>\<close>

definition limit_of :: "param \<Rightarrow> number" where
  "limit_of per_page = (case per_page of Str s \<Rightarrow> parseInt s | _ \<Rightarrow> Fin 10)"

text \<open>
  \<open>const offset = typeof page === "string"
     ? parseInt(page) > 0 ? (parseInt(page) - 1) * limit : 0
     : 0\<close>
\<close>

definition offset_of :: "param \<Rightarrow> number \<Rightarrow> number" where
  "offset_of page limit =
     (case page of
        Str s \<Rightarrow>
          (if js_gt_zero (parseInt s) then js_mul (js_sub (parseInt s) (Fin 1)) limit
           else Fin 0)
      | _ \<Rightarrow> Fin 0)"

text \<open>\<open>const pageCount = Math.ceil(count / limit)\<close>\<close>

definition pageCount_of :: "number \<Rightarrow> number \<Rightarrow> number" where
  "pageCount_of cnt limit = Math_ceil (js_div cnt limit)"

subsection \<open>Users, clinics and bookings\<close>

text \<open>
  The schema module is not part of the source; the records hold the columns the page
  names (\<open>clinics.id\<close>, \<open>clinics.userId\<close>, \<open>bookings.id\<close>, \<open>bookings.clinicId\<close>,
  \<open>bookings.lastName\<close>, \<open>bookings.type\<close>, \<open>bookings.email\<close>,
  \<open>bookings.createdAt\<close>). Every other column of a booking lives in the extension
  of the record, which the page passes on unread. A creation time is a count of
  milliseconds.
\<close>

record user =
  user_id :: string

record clinic =
  clinics_id :: int
  clinics_userId :: string

record booking =
  bookings_id :: int
  bookings_clinicId :: int
  bookings_lastName :: string
  bookings_type :: string
  bookings_email :: string
  bookings_createdAt :: int

record 'a database =
  clinics :: "clinic list"
  bookings :: "'a booking_scheme list"

text \<open>
  \<open>new Date(s)\<close> is a point in time or the invalid date. How a string is read is
  left to the engine, so the reading is a parameter \<open>newDate\<close> of the page.
\<close>

datatype jsdate = InvalidDate | DateAt int

subsection \<open>The data store\<close>

text \<open>
  The source names neither the engine behind \<open>db\<close> nor the version of the query
  builder. Where engines and builders differ, the model takes what they do as a parameter
  of the page:
  \<^item> \<open>like_fold\<close>: how \<open>LIKE\<close> reads a code unit before it compares (the identity
    where \<open>LIKE\<close> is case-sensitive, a case folding where it is not);
  \<^item> \<open>like_escape\<close>: the escape character of a \<open>LIKE\<close> with no \<open>ESCAPE\<close> clause,
    if the engine has one;
  \<^item> \<open>collation_key\<close>: the key by which \<open>IN\<close> and \<open>ORDER BY\<close> compare a text
    (the text itself under a binary collation);
  \<^item> \<open>odd_limit\<close>: what becomes of a limit that is not a whole number from 1 to
    \<open>2 ^ 53\<close>: the statement fails (\<open>None\<close>), runs with no limit (\<open>Some None\<close>),
    or runs with some limit;
  \<^item> \<open>odd_offset\<close>: what becomes of an offset that is not a whole number from 0 to
    \<open>2 ^ 53\<close>: the statement fails, or runs with some offset;
  \<^item> \<open>order_by_other\<close>: whether a statement ordered by a member of the table object
    that is no column runs (the rows then come in the order of the table) or fails;
  \<^item> \<open>invalid_date_fails\<close>: whether a statement that compares with the invalid date
    fails, or runs.
\<close>

record data_store =
  like_fold :: "char \<Rightarrow> char"
  like_escape :: "char option"
  collation_key :: "string \<Rightarrow> string"
  odd_limit :: "number \<Rightarrow> nat option option"
  odd_offset :: "number \<Rightarrow> nat option"
  order_by_other :: "string \<Rightarrow> bool"
  invalid_date_fails :: bool

subsection \<open>Filter conditions\<close>

text \<open>
  The conditions the page builds with \<open>eq\<close>, \<open>like\<close>, \<open>inArray\<close>, \<open>gte\<close>, \<open>lte\<close>
  and \<open>and\<close>, each on the column the source applies it to.
\<close>

datatype condition =
    Eq_clinicId int
  | Like_lastName string
  | InArray_type "string list"
  | Like_email string
  | Gte_createdAt jsdate
  | Lte_createdAt jsdate
  | And "condition list"

text \<open>
  The builder's \<open>and\<close> drops the conditions that are \<open>undefined\<close>; of none it makes
  \<open>undefined\<close>, of one that condition, of several their conjunction.
\<close>

definition sql_and :: "condition option list \<Rightarrow> condition option" where
  "sql_and conditions =
     (case List.map_filter (\<lambda>c. c) conditions of
        [] \<Rightarrow> None
      | [c] \<Rightarrow> Some c
      | cs \<Rightarrow> Some (And cs))"

text \<open>
  The \<open>LIKE\<close> operator, for a folding \<open>f\<close> and an escape character \<open>esc\<close>: in the
  pattern \<open>%\<close> stands for any run of code units, \<open>_\<close> for exactly one, the escape
  character takes the code unit after it literally (at the end of the pattern it stands
  for itself), and any other code unit stands for the code units with the same folding.
\<close>

fun like_match :: "(char \<Rightarrow> char) \<Rightarrow> char option \<Rightarrow> string \<Rightarrow> string \<Rightarrow> bool" where
  "like_match f esc [] s = (s = [])"
| "like_match f esc (c # p) s =
     (if c = CHR ''%'' then
        like_match f esc p s
          \<or> (case s of [] \<Rightarrow> False | x # s' \<Rightarrow> like_match f esc (c # p) s')
      else if c = CHR ''_'' then
        (case s of [] \<Rightarrow> False | x # s' \<Rightarrow> like_match f esc p s')
      else if Some c = esc then
        (case p of
           [] \<Rightarrow> (case s of [x] \<Rightarrow> f x = f c | _ \<Rightarrow> False)
         | e # p' \<Rightarrow>
             (case s of [] \<Rightarrow> False | x # s' \<Rightarrow> f x = f e \<and> like_match f esc p' s'))
      else
        (case s of [] \<Rightarrow> False | x # s' \<Rightarrow> f x = f c \<and> like_match f esc p s'))"

text \<open>
  Modelled from the spec: the data store's comparison of a creation time with an invalid
  date is not in the source; the spec has malformed dates degrade to invalid date
  comparisons and not to errors, so in a statement that runs such a comparison holds of no
  row.
\<close>

fun date_le :: "jsdate \<Rightarrow> int \<Rightarrow> bool" where
  "date_le (DateAt t) x = (t \<le> x)"
| "date_le InvalidDate x = False"

fun date_ge :: "jsdate \<Rightarrow> int \<Rightarrow> bool" where
  "date_ge (DateAt t) x = (x \<le> t)"
| "date_ge InvalidDate x = False"

fun holds :: "data_store \<Rightarrow> condition \<Rightarrow> 'a booking_scheme \<Rightarrow> bool" where
  "holds st (Eq_clinicId v) b = (bookings_clinicId b = v)"
| "holds st (Like_lastName p) b =
     like_match (like_fold st) (like_escape st) p (bookings_lastName b)"
| "holds st (InArray_type vs) b =
     (collation_key st (bookings_type b) \<in> set (map (collation_key st) vs))"
| "holds st (Like_email p) b =
     like_match (like_fold st) (like_escape st) p (bookings_email b)"
| "holds st (Gte_createdAt d) b = date_le d (bookings_createdAt b)"
| "holds st (Lte_createdAt d) b = date_ge d (bookings_createdAt b)"
| "holds st (And cs) b = (\<forall>c \<in> set cs. holds st c b)"

text \<open>Whether a condition compares with the invalid date anywhere.\<close>

fun mentions_invalid_date :: "condition \<Rightarrow> bool" where
  "mentions_invalid_date (Gte_createdAt d) = (d = InvalidDate)"
| "mentions_invalid_date (Lte_createdAt d) = (d = InvalidDate)"
| "mentions_invalid_date (And cs) = (\<exists>c \<in> set cs. mentions_invalid_date c)"
| "mentions_invalid_date _ = False"

definition where_fails :: "data_store \<Rightarrow> condition option \<Rightarrow> bool" where
  "where_fails st w =
     (case w of None \<Rightarrow> False | Some c \<Rightarrow> invalid_date_fails st \<and> mentions_invalid_date c)"

text \<open>\<open>.where(w)\<close>: with \<open>undefined\<close> every row passes.\<close>

definition where_holds :: "data_store \<Rightarrow> condition option \<Rightarrow> 'a booking_scheme \<Rightarrow> bool" where
  "where_holds st w b = (case w of None \<Rightarrow> True | Some c \<Rightarrow> holds st c b)"

subsection \<open>Ordering\<close>

text \<open>
  \<open>asc(bookings[column])\<close> and \<open>desc(bookings[column])\<close>, with the member of the table
  object given by its key.
\<close>

datatype order_term = Asc string | Desc string

type_synonym 'a row_order = "'a booking_scheme \<Rightarrow> 'a booking_scheme \<Rightarrow> bool"

text \<open>
  A member of the table object is a column, given by the value it has in a row (a number
  or a text), or something else (a method, say).
\<close>

datatype cell = Num int | Text string

datatype 'r member = Column "'r \<Rightarrow> cell" | NoColumn

text \<open>
  The table object is an object of the language, so the keys of \<open>Object.prototype\<close>
  are found in it as well.
\<close>

definition Object_prototype_keys :: "string list" where
  "Object_prototype_keys =
     [''constructor'', ''__defineGetter__'', ''__defineSetter__'', ''hasOwnProperty'',
      ''__lookupGetter__'', ''__lookupSetter__'', ''isPrototypeOf'', ''propertyIsEnumerable'',
      ''toString'', ''valueOf'', ''__proto__'', ''toLocaleString'']"

text \<open>
  \<open>bookings[key]\<close>. The six columns the page names are fixed; then come the inherited
  keys; \<open>others\<close> gives the members the page does not name (the schema module is not
  part of the source).
\<close>

definition bookings_member ::
  "(string \<Rightarrow> 'a booking_scheme member option) \<Rightarrow> string \<Rightarrow> 'a booking_scheme member option" where
  "bookings_member others key =
     (if key = ''id'' then Some (Column (\<lambda>b. Num (bookings_id b)))
      else if key = ''clinicId'' then Some (Column (\<lambda>b. Num (bookings_clinicId b)))
      else if key = ''lastName'' then Some (Column (\<lambda>b. Text (bookings_lastName b)))
      else if key = ''type'' then Some (Column (\<lambda>b. Text (bookings_type b)))
      else if key = ''email'' then Some (Column (\<lambda>b. Text (bookings_email b)))
      else if key = ''createdAt'' then Some (Column (\<lambda>b. Num (bookings_createdAt b)))
      else if key \<in> set Object_prototype_keys then Some NoColumn
      else others key)"

text \<open>\<open>key in bookings\<close>: own and inherited keys alike.\<close>

definition key_in_bookings ::
  "(string \<Rightarrow> 'a booking_scheme member option) \<Rightarrow> string \<Rightarrow> bool" where
  "key_in_bookings others key = (bookings_member others key \<noteq> None)"

text \<open>
  How the data store compares two values of a column: numbers by size, texts by their
  collation keys (a column holds values of one kind).
\<close>

fun cell_le :: "data_store \<Rightarrow> cell \<Rightarrow> cell \<Rightarrow> bool" where
  "cell_le st (Num m) (Num n) = (m \<le> n)"
| "cell_le st (Text s) (Text t) = (collation_key st s \<le> collation_key st t)"
| "cell_le st (Num m) (Text t) = True"
| "cell_le st (Text s) (Num n) = False"

text \<open>
  Sorting is an insertion sort: rows that compare equal keep the order of the table, which
  is one of the orders the data store may return them in.
\<close>

fun insert_row :: "('r \<Rightarrow> 'r \<Rightarrow> bool) \<Rightarrow> 'r \<Rightarrow> 'r list \<Rightarrow> 'r list" where
  "insert_row le x [] = [x]"
| "insert_row le x (y # ys) = (if le x y then x # y # ys else y # insert_row le x ys)"

definition order_rows :: "('r \<Rightarrow> 'r \<Rightarrow> bool) \<Rightarrow> 'r list \<Rightarrow> 'r list" where
  "order_rows le rows = foldr (insert_row le) rows []"

text \<open>
  The order a member stands for in \<open>ORDER BY\<close>: a column's own; for a member that is no
  column the order that leaves the rows as they are, if the statement runs at all; for a
  key the table does not have, none.
\<close>

definition member_order ::
  "data_store \<Rightarrow> (string \<Rightarrow> 'a booking_scheme member option) \<Rightarrow> string \<Rightarrow> 'a row_order option" where
  "member_order st others key =
     (case bookings_member others key of
        Some (Column val) \<Rightarrow> Some (\<lambda>a b. cell_le st (val a) (val b))
      | Some NoColumn \<Rightarrow> (if order_by_other st key then Some (\<lambda>a b. True) else None)
      | None \<Rightarrow> None)"

definition term_order ::
  "data_store \<Rightarrow> (string \<Rightarrow> 'a booking_scheme member option) \<Rightarrow> order_term \<Rightarrow> 'a row_order option" where
  "term_order st others t =
     (case t of
        Asc key \<Rightarrow> member_order st others key
      | Desc key \<Rightarrow> map_option (\<lambda>le a b. le b a) (member_order st others key))"

subsection \<open>The two reads\<close>

record select_query =
  q_limit :: number
  q_offset :: number
  q_where :: "condition option"
  q_orderBy :: order_term

datatype db_error = DbError

text \<open>A whole number from 0 to \<open>2 ^ 53\<close>, which every engine reads as it is written.\<close>

fun plain_count :: "number \<Rightarrow> nat option" where
  "plain_count (Fin q) =
     (if 0 \<le> q \<and> q \<le> 2 ^ 53 \<and> of_int \<lfloor>q\<rfloor> = q then Some (nat \<lfloor>q\<rfloor>) else None)"
| "plain_count _ = None"

text \<open>
  The number of rows a limit keeps (\<open>Some None\<close>: all of them) and the number of rows an
  offset skips; \<open>None\<close> when the statement fails. A limit of zero is taken away by some
  versions of the builder and passed on by others, so it is left to the data store.
\<close>

definition limit_rows :: "data_store \<Rightarrow> number \<Rightarrow> nat option option" where
  "limit_rows st limit =
     (case plain_count limit of
        Some l \<Rightarrow> (if 0 < l then Some (Some l) else odd_limit st limit)
      | None \<Rightarrow> odd_limit st limit)"

definition offset_rows :: "data_store \<Rightarrow> number \<Rightarrow> nat option" where
  "offset_rows st offset =
     (case plain_count offset of
        Some n \<Rightarrow> Some n
      | None \<Rightarrow> odd_offset st offset)"

text \<open>
  \<open>tx.select().from(bookings).limit(..).offset(..).where(..).orderBy(..)\<close>: the rows
  that pass the condition, sorted, without the rows the offset skips, as many as the
  limit keeps; or a failure.
\<close>

definition run_select ::
  "data_store \<Rightarrow> (string \<Rightarrow> 'a booking_scheme member option) \<Rightarrow> 'a booking_scheme list
     \<Rightarrow> select_query \<Rightarrow> db_error + 'a booking_scheme list" where
  "run_select st others rows q =
     (if where_fails st (q_where q) then Inl DbError
      else
        (case (limit_rows st (q_limit q), offset_rows st (q_offset q),
               term_order st others (q_orderBy q)) of
           (Some keep, Some skip, Some le) \<Rightarrow>
             (let sorted = order_rows le (filter (where_holds st (q_where q)) rows)
              in Inr (case keep of
                        None \<Rightarrow> drop skip sorted
                      | Some l \<Rightarrow> take l (drop skip sorted)))
         | _ \<Rightarrow> Inl DbError))"

text \<open>\<open>count(bookings.id)\<close> over the rows that pass the condition.\<close>

definition run_count :: "data_store \<Rightarrow> 'a booking_scheme list \<Rightarrow> condition option \<Rightarrow> nat" where
  "run_count st rows w = length (filter (where_holds st w) rows)"

text \<open>Every call to the data store is recorded with its arguments, in order.\<close>

datatype db_call =
    FindFirst_clinics string
  | Select_bookings select_query
  | Count_bookings "condition option"

text \<open>
  \<open>db.transaction\<close>: the select runs first; when it fails the count is never issued.
  The count carries the condition of the select, so where the select has run the count
  runs as well.
\<close>

definition transaction ::
  "data_store \<Rightarrow> (string \<Rightarrow> 'a booking_scheme member option) \<Rightarrow> 'a database \<Rightarrow> select_query
     \<Rightarrow> condition option \<Rightarrow> (db_error + 'a booking_scheme list \<times> nat) \<times> db_call list" where
  "transaction st others db q w =
     (case run_select st others (bookings db) q of
        Inl e \<Rightarrow> (Inl e, [Select_bookings q])
      | Inr items \<Rightarrow>
          (Inr (items, run_count st (bookings db) w), [Select_bookings q, Count_bookings w]))"

subsection \<open>What the page derives from the query string\<close>

text \<open>
  \<open>const [column, order] = typeof sort === "string" ? sort.split(".") : []\<close>:
  an element the array does not have is \<open>undefined\<close>.
\<close>

definition sort_of :: "param \<Rightarrow> string option \<times> string option" where
  "sort_of sort_token =
     (let parts = (case sort_token of Str s \<Rightarrow> String_split CHR ''.'' s | _ \<Rightarrow> [])
      in (case parts of
            [] \<Rightarrow> (None, None)
          | [c] \<Rightarrow> (Some c, None)
          | c # ord # _ \<Rightarrow> (Some c, Some ord)))"

text \<open>\<open>const types = typeof type === "string" ? type.split(".") : []\<close>\<close>

definition types_of :: "param \<Rightarrow> string list" where
  "types_of type = (case type of Str s \<Rightarrow> String_split CHR ''.'' s | _ \<Rightarrow> [])"

text \<open>\<open>typeof from === "string" ? new Date(from) : undefined\<close>, and the same for \<open>to\<close>.\<close>

definition day_of :: "(string \<Rightarrow> jsdate) \<Rightarrow> param \<Rightarrow> jsdate option" where
  "day_of newDate p = (case p of Str s \<Rightarrow> Some (newDate s) | _ \<Rightarrow> None)"

text \<open>The condition of the select (lines 89 to 114). A date object is always truthy.\<close>

definition items_where ::
  "int \<Rightarrow> param \<Rightarrow> string list \<Rightarrow> param \<Rightarrow> jsdate option \<Rightarrow> jsdate option \<Rightarrow> condition option" where
  "items_where clinic_id lastName types email fromDay toDay =
     sql_and
       [Some (Eq_clinicId clinic_id),
        (case lastName of Str s \<Rightarrow> Some (Like_lastName (''%'' @ s @ ''%'')) | _ \<Rightarrow> None),
        (if length types > 0 then Some (InArray_type types) else None),
        (case email of Str s \<Rightarrow> Some (Like_email (''%'' @ s @ ''%'')) | _ \<Rightarrow> None),
        (case (fromDay, toDay) of
           (Some f, Some t) \<Rightarrow> sql_and [Some (Gte_createdAt f), Some (Lte_createdAt t)]
         | _ \<Rightarrow> None)]"

text \<open>The condition of the count (lines 128 to 153), written out a second time.\<close>

definition count_where ::
  "int \<Rightarrow> param \<Rightarrow> string list \<Rightarrow> param \<Rightarrow> jsdate option \<Rightarrow> jsdate option \<Rightarrow> condition option" where
  "count_where clinic_id lastName types email fromDay toDay =
     sql_and
       [Some (Eq_clinicId clinic_id),
        (case lastName of Str s \<Rightarrow> Some (Like_lastName (''%'' @ s @ ''%'')) | _ \<Rightarrow> None),
        (if length types > 0 then Some (InArray_type types) else None),
        (case email of Str s \<Rightarrow> Some (Like_email (''%'' @ s @ ''%'')) | _ \<Rightarrow> None),
        (case (fromDay, toDay) of
           (Some f, Some t) \<Rightarrow> sql_and [Some (Gte_createdAt f), Some (Lte_createdAt t)]
         | _ \<Rightarrow> None)]"

text \<open>
  \<open>column && column in bookings
     ? order === "asc" ? asc(bookings[column]) : desc(bookings[column])
     : desc(bookings.createdAt)\<close>;
  the empty string is falsy.
\<close>

definition orderBy_of ::
  "(string \<Rightarrow> 'a booking_scheme member option) \<Rightarrow> string option \<Rightarrow> string option \<Rightarrow> order_term" where
  "orderBy_of others column ord =
     (case column of
        Some c \<Rightarrow>
          (if c \<noteq> [] \<and> key_in_bookings others c
           then (if ord = Some ''asc'' then Asc c else Desc c)
           else Desc ''createdAt'')
      | None \<Rightarrow> Desc ''createdAt'')"

subsection \<open>The page\<close>

datatype 'a outcome =
    Redirect string
  | NotFound
  | Failed db_error
  | Rendered "'a booking_scheme list" number int

text \<open>
  The function, from the top: no user redirects to the login route; no clinic of the user
  is not found; otherwise the transaction runs and the shell gets the rows, the page
  count and the clinic's id; a statement the data store fails goes up to the framework.
  The second component lists the data store calls made.
\<close>

definition ClinicBookingsPage ::
  "(string \<Rightarrow> jsdate) \<Rightarrow> data_store \<Rightarrow> (string \<Rightarrow> 'a booking_scheme member option)
     \<Rightarrow> user option \<Rightarrow> 'a database \<Rightarrow> searchParams \<Rightarrow> 'a outcome \<times> db_call list" where
  "ClinicBookingsPage newDate st others currentUser db searchParams =
     (case currentUser of
        None \<Rightarrow> (Redirect ''/logowanie'', [])
      | Some usr \<Rightarrow>
          (case find (\<lambda>c. clinics_userId c = user_id usr) (clinics db) of
             None \<Rightarrow> (NotFound, [FindFirst_clinics (user_id usr)])
           | Some clinic \<Rightarrow>
               (let limit = limit_of (sp_per_page searchParams);
                    offset = offset_of (sp_page searchParams) limit;
                    (column, ord) = sort_of (sp_sort searchParams);
                    types = types_of (sp_type searchParams);
                    fromDay = day_of newDate (sp_from searchParams);
                    toDay = day_of newDate (sp_to searchParams);
                    (result, calls) =
                      transaction st others db
                        \<lparr>q_limit = limit, q_offset = offset,
                         q_where = items_where (clinics_id clinic) (sp_lastName searchParams)
                                     types (sp_email searchParams) fromDay toDay,
                         q_orderBy = orderBy_of others column ord\<rparr>
                        (count_where (clinics_id clinic) (sp_lastName searchParams)
                           types (sp_email searchParams) fromDay toDay)
                in (case result of
                      Inl e \<Rightarrow> (Failed e, FindFirst_clinics (user_id usr) # calls)
                    | Inr (items, cnt) \<Rightarrow>
                        (Rendered items (pageCount_of (Fin (of_nat cnt)) limit) (clinics_id clinic),
                         FindFirst_clinics (user_id usr) # calls)))))"

subsection \<open>Notions the properties are stated with\<close>



text \<open>
  Membership as the data store compares texts: the text has the collation key of a member
  of the list. Under a binary collation this is plain membership.
\<close>

definition one_of :: "data_store \<Rightarrow> string \<Rightarrow> string list \<Rightarrow> bool" where
  "one_of st x vs = (collation_key st x \<in> set (map (collation_key st) vs))"


text \<open>Whether a condition compares the creation time anywhere.\<close>

fun mentions_createdAt :: "condition \<Rightarrow> bool" where
  "mentions_createdAt (Gte_createdAt d) = True"
| "mentions_createdAt (Lte_createdAt d) = True"
| "mentions_createdAt (And cs) = (\<exists>c \<in> set cs. mentions_createdAt c)"
| "mentions_createdAt _ = False"

definition where_mentions_createdAt :: "condition option \<Rightarrow> bool" where
  "where_mentions_createdAt w = (case w of None \<Rightarrow> False | Some c \<Rightarrow> mentions_createdAt c)"

subsection \<open>A sample clinic\<close>

text \<open>
  Two clinics and four bookings, three of them of clinic 7, used to run the page on
  concrete requests. The sample date reading knows two days (midnight, UTC) and takes
  every other string for an invalid date; the sample table has no further members.

  The sample data store folds the case of the letters \<open>a\<close> to \<open>z\<close> in \<open>LIKE\<close>,
  escapes with the backslash, and orders texts by their code units. Its builder leaves
  out a limit that is \<open>NaN\<close> or a zero and an offset that is \<open>NaN\<close>; every other
  odd limit or offset makes the statement fail. A statement ordered by a member that is
  no column runs; a statement that compares with the invalid date fails.
\<close>

definition ascii_upper :: "char \<Rightarrow> char" where
  "ascii_upper c =
     (let n = (of_char c :: nat) in if 97 \<le> n \<and> n \<le> 122 then char_of (n - 32) else c)"

definition sample_store :: data_store where
  "sample_store =
     \<lparr>like_fold = ascii_upper,
      like_escape = Some (CHR 0x5C),
      collation_key = (\<lambda>s. s),
      odd_limit = (\<lambda>n. if n = NaN \<or> is_zero n then Some None else None),
      odd_offset = (\<lambda>n. if n = NaN then Some 0 else None),
      order_by_other = (\<lambda>key. True),
      invalid_date_fails = True\<rparr>"

definition sample_newDate :: "string \<Rightarrow> jsdate" where
  "sample_newDate s =
     (if s = ''2024-01-01'' then DateAt 1704067200000
      else if s = ''2024-12-31'' then DateAt 1735603200000
      else InvalidDate)"

definition no_others :: "string \<Rightarrow> booking member option" where
  "no_others key = None"

definition kowalski :: booking where
  "kowalski = \<lparr>bookings_id = 1, bookings_clinicId = 7, bookings_lastName = ''Kowalski'',
     bookings_type = ''checkup'', bookings_email = ''jan@clinic.pl'',
     bookings_createdAt = 1706745600000\<rparr>"

definition adamska :: booking where
  "adamska = \<lparr>bookings_id = 2, bookings_clinicId = 7, bookings_lastName = ''Adamska'',
     bookings_type = ''consultation'', bookings_email = ''ada@clinic.pl'',
     bookings_createdAt = 1709251200000\<rparr>"

definition kowal :: booking where
  "kowal = \<lparr>bookings_id = 3, bookings_clinicId = 8, bookings_lastName = ''Kowal'',
     bookings_type = ''checkup'', bookings_email = ''k@clinic.pl'',
     bookings_createdAt = 1711929600000\<rparr>"

definition nowak :: booking where
  "nowak = \<lparr>bookings_id = 4, bookings_clinicId = 7, bookings_lastName = ''Nowak'',
     bookings_type = ''surgery'', bookings_email = ''nowak@example.com'',
     bookings_createdAt = 1714521600000\<rparr>"

definition sample_db :: "unit database" where
  "sample_db =
     \<lparr>clinics = [\<lparr>clinics_id = 7, clinics_userId = ''user_1''\<rparr>,
                 \<lparr>clinics_id = 8, clinics_userId = ''user_2''\<rparr>],
      bookings = [kowalski, adamska, kowal, nowak]\<rparr>"

definition no_params :: searchParams where
  "no_params =
     \<lparr>sp_page = Undefined, sp_per_page = Undefined, sp_sort = Undefined, sp_from = Undefined,
      sp_to = Undefined, sp_lastName = Undefined, sp_type = Undefined, sp_date = Undefined,
      sp_time = Undefined, sp_slot = Undefined, sp_email = Undefined\<rparr>"

subsection \<open>The queries of a request\<close>

text \<open>Short names for what the page computes from the parameters of a request.\<close>

abbreviation request_limit :: "searchParams \<Rightarrow> number" where
  "request_limit sp \<equiv> limit_of (sp_per_page sp)"

abbreviation request_offset :: "searchParams \<Rightarrow> number" where
  "request_offset sp \<equiv> offset_of (sp_page sp) (limit_of (sp_per_page sp))"

abbreviation request_orderBy ::
  "(string \<Rightarrow> 'a booking_scheme member option) \<Rightarrow> searchParams \<Rightarrow> order_term" where
  "request_orderBy others sp \<equiv>
     orderBy_of others (fst (sort_of (sp_sort sp))) (snd (sort_of (sp_sort sp)))"

abbreviation request_items_where :: "(string \<Rightarrow> jsdate) \<Rightarrow> searchParams \<Rightarrow> int \<Rightarrow> condition option" where
  "request_items_where newDate sp cid \<equiv>
     items_where cid (sp_lastName sp) (types_of (sp_type sp)) (sp_email sp)
       (day_of newDate (sp_from sp)) (day_of newDate (sp_to sp))"

abbreviation request_count_where :: "(string \<Rightarrow> jsdate) \<Rightarrow> searchParams \<Rightarrow> int \<Rightarrow> condition option" where
  "request_count_where newDate sp cid \<equiv>
     count_where cid (sp_lastName sp) (types_of (sp_type sp)) (sp_email sp)
       (day_of newDate (sp_from sp)) (day_of newDate (sp_to sp))"

abbreviation request_select ::
  "(string \<Rightarrow> jsdate) \<Rightarrow> (string \<Rightarrow> 'a booking_scheme member option) \<Rightarrow> searchParams \<Rightarrow> int
     \<Rightarrow> select_query" where
  "request_select newDate others sp cid \<equiv>
     \<lparr>q_limit = request_limit sp, q_offset = request_offset sp,
      q_where = request_items_where newDate sp cid, q_orderBy = request_orderBy others sp\<rparr>"

section \<open>Properties\<close>

subsection \<open>Auxiliary facts\<close>

text \<open>
  The equations of \<open>like_match\<close> rewrite a pattern that starts with \<open>%\<close> into
  itself, so they are applied by hand.
\<close>

declare like_match.simps [simp del]

lemma set_map_filter_id: "set (List.map_filter (\<lambda>c. c) cs) = {c. Some c \<in> set cs}"
  by (induction cs) (auto simp: List.map_filter_simps split: option.splits)

lemma where_holds_sql_and:
  "where_holds st (sql_and cs) b \<longleftrightarrow> (\<forall>c. Some c \<in> set cs \<longrightarrow> holds st c b)"
proof -
  have "where_holds st (sql_and cs) b
          \<longleftrightarrow> (\<forall>c \<in> set (List.map_filter (\<lambda>c. c) cs). holds st c b)"
  proof (cases "List.map_filter (\<lambda>c. c) cs")
    case Nil
    then show ?thesis by (simp add: sql_and_def where_holds_def)
  next
    case (Cons x xs)
    then show ?thesis by (cases xs) (simp_all add: sql_and_def where_holds_def)
  qed
  then show ?thesis by (simp add: set_map_filter_id)
qed

lemma sql_and_two: "sql_and [Some a, Some b] = Some (And [a, b])"
  by (simp add: sql_and_def List.map_filter_simps)

lemma where_holds_items_where:
  "where_holds st (items_where cid lastName types email fromDay toDay) b \<longleftrightarrow>
     bookings_clinicId b = cid
     \<and> (\<forall>s. lastName = Str s \<longrightarrow>
           like_match (like_fold st) (like_escape st) (''%'' @ s @ ''%'') (bookings_lastName b))
     \<and> (types \<noteq> [] \<longrightarrow> one_of st (bookings_type b) types)
     \<and> (\<forall>s. email = Str s \<longrightarrow>
           like_match (like_fold st) (like_escape st) (''%'' @ s @ ''%'') (bookings_email b))
     \<and> (\<forall>f t. fromDay = Some f \<and> toDay = Some t \<longrightarrow>
           date_le f (bookings_createdAt b) \<and> date_ge t (bookings_createdAt b))"
  unfolding items_where_def where_holds_sql_and one_of_def
  by (auto simp: sql_and_two split: param.splits option.splits)

lemma items_where_eq_count_where:
  "items_where cid lastName types email fromDay toDay = count_where cid lastName types email fromDay toDay"
  by (simp add: items_where_def count_where_def)





lemma mset_insert_row: "mset (insert_row le x xs) = add_mset x (mset xs)"
  by (induction xs) simp_all

lemma mset_order_rows: "mset (order_rows le xs) = mset xs"
  by (induction xs) (simp_all add: order_rows_def mset_insert_row)

lemma page_unfold:
  "ClinicBookingsPage newDate st others currentUser db sp =
     (case currentUser of
        None \<Rightarrow> (Redirect ''/logowanie'', [])
      | Some usr \<Rightarrow>
          (case find (\<lambda>c. clinics_userId c = user_id usr) (clinics db) of
             None \<Rightarrow> (NotFound, [FindFirst_clinics (user_id usr)])
           | Some clinic \<Rightarrow>
               (case run_select st others (bookings db)
                       (request_select newDate others sp (clinics_id clinic)) of
                  Inl e \<Rightarrow>
                    (Failed e,
                     [FindFirst_clinics (user_id usr),
                      Select_bookings (request_select newDate others sp (clinics_id clinic))])
                | Inr items \<Rightarrow>
                    (Rendered items
                       (pageCount_of
                          (Fin (of_nat (run_count st (bookings db)
                             (request_count_where newDate sp (clinics_id clinic)))))
                          (request_limit sp))
                       (clinics_id clinic),
                     [FindFirst_clinics (user_id usr),
                      Select_bookings (request_select newDate others sp (clinics_id clinic)),
                      Count_bookings (request_count_where newDate sp (clinics_id clinic))]))))"
  unfolding ClinicBookingsPage_def transaction_def Let_def
  by (simp split: option.splits sum.splits prod.splits)

lemma page_rendered:
  assumes "ClinicBookingsPage newDate st others currentUser db sp = (Rendered items pc cid, calls)"
  obtains usr clinic where
    "currentUser = Some usr"
    "find (\<lambda>c. clinics_userId c = user_id usr) (clinics db) = Some clinic"
    "cid = clinics_id clinic"
    "run_select st others (bookings db) (request_select newDate others sp cid) = Inr items"
    "pc = pageCount_of (Fin (of_nat (run_count st (bookings db) (request_count_where newDate sp cid))))
            (request_limit sp)"
    "calls = [FindFirst_clinics (user_id usr),
              Select_bookings (request_select newDate others sp cid),
              Count_bookings (request_count_where newDate sp cid)]"
proof (cases currentUser)
  case None
  then show ?thesis using assms by (simp add: page_unfold)
next
  case (Some usr)
  note usr = this
  show ?thesis
  proof (cases "find (\<lambda>c. clinics_userId c = user_id usr) (clinics db)")
    case None
    then show ?thesis using assms usr by (simp add: page_unfold)
  next
    case (Some clinic)
    note clinic = this
    show ?thesis
    proof (cases "run_select st others (bookings db) (request_select newDate others sp (clinics_id clinic))")
      case (Inl e)
      then show ?thesis using assms usr clinic by (simp add: page_unfold)
    next
      case (Inr rows)
      from assms usr clinic Inr have
        "items = rows" "cid = clinics_id clinic"
        "pc = pageCount_of (Fin (of_nat (run_count st (bookings db)
                 (request_count_where newDate sp (clinics_id clinic))))) (request_limit sp)"
        "calls = [FindFirst_clinics (user_id usr),
              Select_bookings (request_select newDate others sp (clinics_id clinic)),
              Count_bookings (request_count_where newDate sp (clinics_id clinic))]"
        by (auto simp: page_unfold)
      with usr clinic Inr show ?thesis
        by (intro that[of usr clinic]) auto
    qed
  qed
qed

lemma run_select_rows:
  assumes "run_select st others rows q = Inr items"
  obtains l off le where
    "offset_rows st (q_offset q) = Some off"
    "term_order st others (q_orderBy q) = Some le"
    "items = take l (drop off (order_rows le (filter (where_holds st (q_where q)) rows)))"
    "\<forall>k. limit_rows st (q_limit q) = Some (Some k) \<longrightarrow> l = k"
proof -
  from assms obtain keep off le where
    keep: "limit_rows st (q_limit q) = Some keep"
    and off: "offset_rows st (q_offset q) = Some off"
    and le: "term_order st others (q_orderBy q) = Some le"
    and items: "items = (case keep of
        None \<Rightarrow> drop off (order_rows le (filter (where_holds st (q_where q)) rows))
      | Some l \<Rightarrow> take l (drop off (order_rows le (filter (where_holds st (q_where q)) rows))))"
    unfolding run_select_def Let_def by (auto split: option.splits if_splits)
  let ?sorted = "order_rows le (filter (where_holds st (q_where q)) rows)"
  show ?thesis
  proof (cases keep)
    case None
    with items have "items = take (length ?sorted) (drop off ?sorted)"
      by simp
    with off le keep None show ?thesis
      by (intro that[of off le "length ?sorted"]) simp_all
  next
    case (Some l)
    with items have "items = take l (drop off ?sorted)"
      by simp
    with off le keep Some show ?thesis
      by (intro that[of off le l]) simp_all
  qed
qed

lemma page_select_call:
  assumes "ClinicBookingsPage newDate st others currentUser db sp = (out, calls)"
    and "Select_bookings q \<in> set calls"
  obtains usr clinic where
    "currentUser = Some usr"
    "find (\<lambda>c. clinics_userId c = user_id usr) (clinics db) = Some clinic"
    "q = request_select newDate others sp (clinics_id clinic)"
proof (cases currentUser)
  case None
  then show ?thesis using assms by (auto simp: page_unfold)
next
  case (Some usr)
  note usr = this
  show ?thesis
  proof (cases "find (\<lambda>c. clinics_userId c = user_id usr) (clinics db)")
    case None
    then show ?thesis using assms usr by (auto simp: page_unfold)
  next
    case (Some clinic)
    then have "q = request_select newDate others sp (clinics_id clinic)"
      using assms usr by (auto simp: page_unfold split: sum.splits)
    with usr Some show ?thesis by (intro that[of usr clinic]) simp_all
  qed
qed

lemma page_count_call:
  assumes "ClinicBookingsPage newDate st others currentUser db sp = (out, calls)"
    and "Count_bookings w \<in> set calls"
  obtains usr clinic where
    "currentUser = Some usr"
    "find (\<lambda>c. clinics_userId c = user_id usr) (clinics db) = Some clinic"
    "w = request_count_where newDate sp (clinics_id clinic)"
proof (cases currentUser)
  case None
  then show ?thesis using assms by (auto simp: page_unfold)
next
  case (Some usr)
  note usr = this
  show ?thesis
  proof (cases "find (\<lambda>c. clinics_userId c = user_id usr) (clinics db)")
    case None
    then show ?thesis using assms usr by (auto simp: page_unfold)
  next
    case (Some clinic)
    then have "w = request_count_where newDate sp (clinics_id clinic)"
      using assms usr by (auto simp: page_unfold split: sum.splits)
    with usr Some show ?thesis by (intro that[of usr clinic]) simp_all
  qed
qed

lemma find_clinic_owner:
  "find (\<lambda>c. clinics_userId c = uid) cs = Some clinic
     \<Longrightarrow> clinic \<in> set cs \<and> clinics_userId clinic = uid"
  by (auto simp: find_Some_iff)

subsection \<open>Rounding\<close>

lemma round_even_int [simp]: "round_even (of_int k) = k"
  by (simp add: round_even_def)

lemma bitlen_one: "bitlen 1 = 1"
  by (simp add: bitlen_def compute_floorlog)

lemma ilog2_of_int_le:
  assumes "0 < n" "n < 2 ^ 53"
  shows "ilog2 (of_int n) \<le> 52"
proof -
  have "nat n < 2 ^ 53"
    using assms by (simp add: nat_less_iff)
  then have "floorlog 2 (nat n) \<le> 53"
    by (simp add: floorlog_le_iff)
  then have "bitlen n \<le> 53"
    by (simp add: bitlen_def)
  then show ?thesis
    by (auto simp: ilog2_def Let_def bitlen_one)
qed

text \<open>An integer below \<open>2 ^ 53\<close> in magnitude is a binary64 value.\<close>

lemma round64_safe:
  assumes "\<bar>n\<bar> < 2 ^ 53"
  shows "round64 (of_int n) = Fin (of_int n)"
proof (cases "n = 0")
  case True
  then show ?thesis by (simp add: round64_def)
next
  case False
  let ?a = "\<bar>of_int n :: rat\<bar>"
  have a: "?a = of_int \<bar>n\<bar>"
    by simp
  have "ilog2 (of_int \<bar>n\<bar>) \<le> 52"
    using assms False by (intro ilog2_of_int_le) simp_all
  then have p: "max (ilog2 ?a) (- 1022) - 52 \<le> 0"
    by (simp only: a)
  define k where "k = nat (- (max (ilog2 ?a) (- 1022) - 52))"
  have pw: "pow2 (max (ilog2 ?a) (- 1022) - 52) = 1 / 2 ^ k"
  proof (cases "max (ilog2 ?a) (- 1022) - 52 = 0")
    case True
    then show ?thesis by (simp add: pow2_def k_def)
  next
    case False
    with p have "max (ilog2 ?a) (- 1022) - 52 < 0" by simp
    then show ?thesis by (simp add: pow2_def k_def)
  qed
  have sc: "?a / (1 / 2 ^ k) = of_int (\<bar>n\<bar> * 2 ^ k)"
    by simp
  have v: "of_int (round_even (?a / (1 / 2 ^ k))) * (1 / 2 ^ k) = (of_int \<bar>n\<bar> :: rat)"
    by (simp only: sc round_even_int) simp
  have big: "\<not> pow2 1024 \<le> (of_int \<bar>n\<bar> :: rat)"
  proof -
    have "(of_int \<bar>n\<bar> :: rat) < of_int (2 ^ 53)"
      using assms by (simp only: of_int_less_iff)
    also have "\<dots> \<le> pow2 1024"
      by (simp add: pow2_def)
    finally show ?thesis by simp
  qed
  have nz: "(of_int \<bar>n\<bar> :: rat) \<noteq> 0"
    using False by simp
  have "round64 (of_int n) = Fin (if (of_int n :: rat) < 0 then - of_int \<bar>n\<bar> else of_int \<bar>n\<bar>)"
    using False big nz unfolding round64_def Let_def pw v by simp
  then show ?thesis
    by (simp add: abs_if)
qed

lemma round64_numeral:
  "numeral k < (2 :: int) ^ 53 \<Longrightarrow> round64 (numeral k) = Fin (numeral k)"
  "numeral k < (2 :: int) ^ 53 \<Longrightarrow> round64 (- numeral k) = Fin (- numeral k)"
  using round64_safe[of "numeral k"] round64_safe[of "- numeral k"] by simp_all

text \<open>The equations that evaluate the numbers of a concrete query string.\<close>

lemmas number_eval = parseInt_def is_white_space_def digit_of_def Let_def round64_numeral
  offset_of_def limit_of_def js_mul_def

subsection \<open>Pagination arithmetic\<close>

lemma neg_div_neg_eq:
  fixes c l :: int
  assumes "0 < l"
  shows "- ((- c) div l) = (c + l - 1) div l"
proof -
  define q where "q = c div l"
  define r where "r = c mod l"
  have c: "c = q * l + r" and r: "0 \<le> r" "r < l"
    using assms by (simp_all add: q_def r_def)
  show ?thesis
  proof (cases "r = 0")
    case True
    have "(c + l - 1) div l = (l - 1 + q * l) div l"
      using c True by (simp add: algebra_simps)
    also have "\<dots> = (l - 1) div l + q"
      using assms by (simp only: div_mult_self1)
    also have "\<dots> = q"
      using assms by simp
    finally have up: "(c + l - 1) div l = q" .
    have "(- c) div l = (0 + (- q) * l) div l"
      using c True by simp
    also have "\<dots> = 0 div l + (- q)"
      using assms by (simp only: div_mult_self1)
    also have "\<dots> = - q"
      by simp
    finally show ?thesis using up by simp
  next
    case False
    have "(c + l - 1) div l = (r - 1 + (q + 1) * l) div l"
      using c by (simp add: algebra_simps)
    also have "\<dots> = (r - 1) div l + (q + 1)"
      using assms by (simp only: div_mult_self1)
    also have "\<dots> = q + 1"
      using assms r False by simp
    finally have up: "(c + l - 1) div l = q + 1" .
    have "(- c) div l = (l - r + (- q - 1) * l) div l"
      using c by (simp add: algebra_simps)
    also have "\<dots> = (l - r) div l + (- q - 1)"
      using assms by (simp only: div_mult_self1)
    also have "\<dots> = - q - 1"
      using assms r False by simp
    finally show ?thesis using up by simp
  qed
qed

lemma ceiling_quotient:
  fixes c l :: int
  assumes "0 < l"
  shows "\<lceil>of_int c / (of_int l :: rat)\<rceil> = (c + l - 1) div l"
  using neg_div_neg_eq[OF assms, of c] by (simp add: ceiling_divide_eq_div)

text \<open>
  C4. For a count that is a non-negative integer and a limit that is a positive integer,
  the page count is the ceiling of the quotient count / limit, which is the integer
  \<open>(count + limit - 1) div limit\<close>.
\<close>

theorem pageCount_is_ceiling:
  assumes "0 \<le> c" and "0 < l"
  shows "pageCount_of (Fin (of_int c)) (Fin (of_int l)) = Fin (of_int \<lceil>of_int c / (of_int l :: rat)\<rceil>)
       \<and> \<lceil>of_int c / (of_int l :: rat)\<rceil> = (c + l - 1) div l"
proof
  show "pageCount_of (Fin (of_int c)) (Fin (of_int l)) = Fin (of_int \<lceil>of_int c / (of_int l :: rat)\<rceil>)"
    using assms by (auto simp: pageCount_of_def js_div_def divide_less_0_iff)
  show "\<lceil>of_int c / (of_int l :: rat)\<rceil> = (c + l - 1) div l"
    using assms(2) by (rule ceiling_quotient)
qed

theorem pageCount_is_ceiling_witness:
  "pageCount_of (Fin 25) (Fin 10) = Fin 3"
  using pageCount_is_ceiling[of 25 10] by simp

text \<open>
  C5, as stated, fails: the product \<open>(page - 1) * per_page\<close> is a binary64 product. For
  \<open>page = 94906268\<close> and \<open>per_page = 94906267\<close> the integer
  \<open>94906267 * 94906267 = 9007199515875289\<close> lies above \<open>2 ^ 53\<close> and is no binary64
  value; the offset is its neighbour \<open>9007199515875288\<close>.
\<close>

theorem offset_of_page_counterexample:
  "parseInt ''94906268'' = Fin 94906268
   \<and> parseInt ''94906267'' = Fin 94906267
   \<and> (94906268 - 1) * 94906267 = (9007199515875289 :: int)
   \<and> offset_of (Str ''94906268'') (limit_of (Str ''94906267'')) = Fin 9007199515875288
   \<and> offset_of (Str ''94906268'') (limit_of (Str ''94906267'')) \<noteq> Fin 9007199515875289"
proof -
  have "round64 9007199515875289 = Fin 9007199515875288"
    by code_simp
  then show ?thesis
    by (simp add: number_eval)
qed

text \<open>
  C5, amended. When the page parameter parses to an integer \<open>n \<ge> 1\<close> and the per-page
  parameter to an integer \<open>l > 0\<close> with \<open>(n - 1) * l\<close> below \<open>2 ^ 53\<close>, the offset is
  \<open>(n - 1) * l\<close>; when the page parameter is not a string, or parses to a zero or to a
  negative number, the offset is 0.
\<close>

theorem offset_of_page:
  "(parseInt p = Fin (of_int n) \<and> 1 \<le> n \<and> parseInt pp = Fin (of_int l) \<and> 0 < l
      \<and> (n - 1) * l < 2 ^ 53
      \<longrightarrow> offset_of (Str p) (limit_of (Str pp)) = Fin (of_int ((n - 1) * l)))
   \<and> ((\<forall>s. page \<noteq> Str s) \<longrightarrow> offset_of page lmt = Fin 0)
   \<and> (is_zero (parseInt p) \<or> is_neg (parseInt p) \<longrightarrow> offset_of (Str p) lmt = Fin 0)"
proof (intro conjI impI)
  assume a: "parseInt p = Fin (of_int n) \<and> 1 \<le> n \<and> parseInt pp = Fin (of_int l) \<and> 0 < l
      \<and> (n - 1) * l < 2 ^ 53"
  then have p: "parseInt p = Fin (of_int n)" and n: "1 \<le> n"
    and pp: "parseInt pp = Fin (of_int l)" and l: "0 < l" and b: "(n - 1) * l < 2 ^ 53"
    by simp_all
  have "(n - 1) * 1 \<le> (n - 1) * l"
    using n l by (intro mult_left_mono) simp_all
  with b have n1: "\<bar>n - 1\<bar> < 2 ^ 53"
    using n by simp
  have "0 \<le> (n - 1) * l"
    using n l by simp
  with b have prod: "\<bar>(n - 1) * l\<bar> < 2 ^ 53"
    by simp
  have sub: "js_sub (Fin (of_int n)) (Fin 1) = Fin (of_int (n - 1))"
    using round64_safe[OF n1] by simp
  have mul: "js_mul (Fin (of_int (n - 1))) (Fin (of_int l)) = Fin (of_int ((n - 1) * l))"
  proof (cases "n = 1")
    case True
    then show ?thesis using l by (simp add: js_mul_def)
  next
    case False
    with n l have "js_mul (Fin (of_int (n - 1))) (Fin (of_int l))
        = round64 (of_int (n - 1) * of_int l)"
      by (simp add: js_mul_def)
    also have "\<dots> = round64 (of_int ((n - 1) * l))"
      by simp
    also have "\<dots> = Fin (of_int ((n - 1) * l))"
      by (rule round64_safe[OF prod])
    finally show ?thesis .
  qed
  have "js_gt_zero (parseInt p)"
    using p n by simp
  then show "offset_of (Str p) (limit_of (Str pp)) = Fin (of_int ((n - 1) * l))"
    using p pp sub mul by (simp add: offset_of_def limit_of_def)
next
  assume "\<forall>s. page \<noteq> Str s"
  then show "offset_of page lmt = Fin 0"
    by (cases page) (auto simp: offset_of_def)
next
  assume "is_zero (parseInt p) \<or> is_neg (parseInt p)"
  then show "offset_of (Str p) lmt = Fin 0"
    by (cases "parseInt p") (auto simp: offset_of_def)
qed

theorem offset_of_page_witness:
  "offset_of (Str ''3'') (limit_of (Str ''20'')) = Fin 40
   \<and> offset_of Undefined (Fin 20) = Fin 0
   \<and> offset_of (Str ''-2'') (Fin 20) = Fin 0"
proof -
  have a: "parseInt ''3'' = Fin (of_int 3) \<and> (1::int) \<le> 3 \<and> parseInt ''20'' = Fin (of_int 20)
      \<and> (0::int) < 20 \<and> (3 - 1) * 20 < (2::int) ^ 53"
    by (simp add: number_eval)
  have b: "\<forall>s. Undefined \<noteq> Str s"
    by simp
  have c: "is_zero (parseInt ''-2'') \<or> is_neg (parseInt ''-2'')"
    by (simp add: number_eval)
  show ?thesis
    using a b c offset_of_page[of "''3''" 3 "''20''" 20 Undefined "Fin 20"]
      offset_of_page[of "''-2''" 3 "''20''" 20 Undefined "Fin 20"]
    by simp
qed

text \<open>
  C8, as stated, fails: a page parameter that is not numeric makes \<open>parseInt(page) > 0\<close>
  false, so the offset is 0; and with no page parameter a per-page parameter that is not
  numeric leaves the offset at 0 as well.
\<close>

theorem offset_nonnumeric_counterexample:
  "parseInt ''abc'' = NaN
   \<and> offset_of (Str ''abc'') (limit_of Undefined) \<noteq> NaN
   \<and> offset_of Undefined (limit_of (Str ''abc'')) \<noteq> NaN"
  by (simp add: number_eval)

text \<open>
  C8, amended. When the per-page parameter is a string that is not numeric and the page
  parameter is a string that parses to a number above 0, the offset is \<open>NaN\<close>; when the
  page parameter is a string that is not numeric, the offset is 0.
\<close>

theorem offset_nonnumeric:
  "(parseInt pp = NaN \<and> js_gt_zero (parseInt p)
      \<longrightarrow> offset_of (Str p) (limit_of (Str pp)) = NaN)
   \<and> (parseInt p = NaN \<longrightarrow> offset_of (Str p) lmt = Fin 0)"
  by (auto simp: offset_of_def limit_of_def js_mul_def)

theorem offset_nonnumeric_witness:
  "offset_of (Str ''2'') (limit_of (Str ''ten'')) = NaN
   \<and> offset_of (Str ''two'') (Fin 10) = Fin 0"
proof -
  have a: "parseInt ''ten'' = NaN \<and> js_gt_zero (parseInt ''2'')"
    by (simp add: number_eval)
  have b: "parseInt ''two'' = NaN"
    by (simp add: number_eval)
  show ?thesis
    using a b offset_nonnumeric[of "''ten''" "''2''" "Fin 10"] offset_nonnumeric[of "''ten''" "''two''" "Fin 10"]
    by simp
qed

subsection \<open>Access guard\<close>

text \<open>
  C3. A user without a clinic gets the not-found outcome, and the only call made to the
  data store is the clinic lookup: no select and no count of bookings was issued, and
  nothing is rendered.
\<close>

theorem no_clinic_not_found:
  assumes "\<forall>c \<in> set (clinics db). clinics_userId c \<noteq> user_id usr"
  shows "ClinicBookingsPage newDate st others (Some usr) db sp
           = (NotFound, [FindFirst_clinics (user_id usr)])"
proof -
  have "find (\<lambda>c. clinics_userId c = user_id usr) (clinics db) = None"
    using assms by (simp add: find_None_iff)
  then show ?thesis
    by (simp add: page_unfold)
qed

theorem no_clinic_not_found_witness:
  "ClinicBookingsPage sample_newDate sample_store no_others (Some \<lparr>user_id = ''user_3''\<rparr>) sample_db no_params
     = (NotFound, [FindFirst_clinics ''user_3''])"
proof -
  have "\<forall>c \<in> set (clinics sample_db). clinics_userId c \<noteq> user_id \<lparr>user_id = ''user_3''\<rparr>"
    by (simp add: sample_db_def)
  from no_clinic_not_found[OF this, of sample_newDate sample_store no_others no_params]
  show ?thesis by simp
qed

subsection \<open>Default page size\<close>

text \<open>
  C9. When the per-page parameter is not a string the limit is 10: the select is issued
  with limit 10, at most 10 rows are rendered, and the page count is the count divided
  by 10, rounded up.
\<close>

theorem default_limit:
  assumes "\<forall>s. sp_per_page sp \<noteq> Str s"
  shows "limit_of (sp_per_page sp) = Fin 10
       \<and> (ClinicBookingsPage newDate st others currentUser db sp = (out, calls) \<longrightarrow>
            (\<forall>q. Select_bookings q \<in> set calls \<longrightarrow> q_limit q = Fin 10)
          \<and> (\<forall>items pc cid. out = Rendered items pc cid \<longrightarrow>
                length items \<le> 10
              \<and> Count_bookings (request_count_where newDate sp cid) \<in> set calls
              \<and> pc = pageCount_of
                    (Fin (of_nat (run_count st (bookings db) (request_count_where newDate sp cid))))
                    (Fin 10)))"
proof -
  have lim: "limit_of (sp_per_page sp) = Fin 10"
    using assms by (cases "sp_per_page sp") (simp_all add: limit_of_def)
  have ten: "limit_rows st (Fin 10) = Some (Some 10)"
    by (simp add: limit_rows_def)
  have sel: "q_limit q = Fin 10"
    if "ClinicBookingsPage newDate st others currentUser db sp = (out, calls)"
      and "Select_bookings q \<in> set calls" for q
  proof -
    from that obtain usr clinic where
      "currentUser = Some usr"
      "find (\<lambda>c. clinics_userId c = user_id usr) (clinics db) = Some clinic"
      "q = request_select newDate others sp (clinics_id clinic)"
      by (rule page_select_call)
    then show ?thesis using lim by simp
  qed
  have ren: "length items \<le> 10
      \<and> Count_bookings (request_count_where newDate sp cid) \<in> set calls
      \<and> pc = pageCount_of
            (Fin (of_nat (run_count st (bookings db) (request_count_where newDate sp cid)))) (Fin 10)"
    if "ClinicBookingsPage newDate st others currentUser db sp = (Rendered items pc cid, calls)"
    for items pc cid
  proof -
    from that obtain usr clinic where
      "currentUser = Some usr"
      "find (\<lambda>c. clinics_userId c = user_id usr) (clinics db) = Some clinic"
      "cid = clinics_id clinic"
      and sel: "run_select st others (bookings db) (request_select newDate others sp cid) = Inr items"
      and pc: "pc = pageCount_of (Fin (of_nat (run_count st (bookings db) (request_count_where newDate sp cid))))
            (request_limit sp)"
      and calls: "calls = [FindFirst_clinics (user_id usr),
              Select_bookings (request_select newDate others sp cid),
              Count_bookings (request_count_where newDate sp cid)]"
      by (rule page_rendered)
    from sel obtain l off le where
      "offset_rows st (q_offset (request_select newDate others sp cid)) = Some off"
      "term_order st others (q_orderBy (request_select newDate others sp cid)) = Some le"
      and items: "items = take l (drop off (order_rows le (filter
                (where_holds st (q_where (request_select newDate others sp cid))) (bookings db))))"
      and l: "\<forall>k. limit_rows st (q_limit (request_select newDate others sp cid)) = Some (Some k)
                \<longrightarrow> l = k"
      by (rule run_select_rows)
    from l lim ten have "l = 10" by simp
    with items have "length items \<le> 10" by simp
    moreover from calls have "Count_bookings (request_count_where newDate sp cid) \<in> set calls"
      by simp
    ultimately show ?thesis using pc lim by simp
  qed
  show ?thesis
    using lim sel ren by blast
qed

theorem default_limit_witness:
  "limit_of (sp_per_page no_params) = Fin 10
   \<and> q_limit (request_select sample_newDate no_others no_params 7) = Fin 10
   \<and> length [nowak, adamska, kowalski] \<le> 10
   \<and> pageCount_of (Fin (of_nat (run_count sample_store (bookings sample_db)
         (request_count_where sample_newDate no_params 7)))) (Fin 10) = Fin 1"
proof -
  have per_page: "\<forall>s. sp_per_page no_params \<noteq> Str s"
    by (simp add: no_params_def)
  have run: "ClinicBookingsPage sample_newDate sample_store no_others (Some \<lparr>user_id = ''user_1''\<rparr>) sample_db no_params
      = (Rendered [nowak, adamska, kowalski] (Fin 1) 7,
         [FindFirst_clinics ''user_1'',
          Select_bookings (request_select sample_newDate no_others no_params 7),
          Count_bookings (request_count_where sample_newDate no_params 7)])"
    by code_simp
  from default_limit[OF per_page, of sample_newDate sample_store no_others "Some \<lparr>user_id = ''user_1''\<rparr>" sample_db
      "Rendered [nowak, adamska, kowalski] (Fin 1) 7"
      "[FindFirst_clinics ''user_1'',
          Select_bookings (request_select sample_newDate no_others no_params 7),
          Count_bookings (request_count_where sample_newDate no_params 7)]"] run
  show ?thesis
    by simp
qed

subsection \<open>The two filters\<close>

lemma run_count_items_where:
  "run_count st rows (count_where cid lastName types email fromDay toDay)
     = length (filter (where_holds st (items_where cid lastName types email fromDay toDay)) rows)"
  by (simp add: run_count_def items_where_eq_count_where)

text \<open>
  C7. The condition of the select and the condition of the count are the same condition,
  whatever the parameters; in every request that issues both, the count is the number of
  rows passing the select's condition, and the rendered rows are a slice of a
  rearrangement of exactly those rows.
\<close>

theorem same_filter_twice:
  "items_where cid lastName types email fromDay toDay
     = count_where cid lastName types email fromDay toDay
   \<and> (ClinicBookingsPage newDate st others currentUser db sp = (out, calls)
        \<and> Select_bookings q \<in> set calls \<and> Count_bookings w \<in> set calls
      \<longrightarrow> q_where q = w
        \<and> run_count st (bookings db) w = length (filter (where_holds st (q_where q)) (bookings db))
        \<and> (\<forall>items pc n. out = Rendered items pc n \<longrightarrow>
              (\<exists>sorted l off.
                 mset sorted = mset (filter (where_holds st (q_where q)) (bookings db))
               \<and> items = take l (drop off sorted))))"
proof (intro conjI impI)
  show "items_where cid lastName types email fromDay toDay
          = count_where cid lastName types email fromDay toDay"
    by (rule items_where_eq_count_where)
next
  assume a: "ClinicBookingsPage newDate st others currentUser db sp = (out, calls)
        \<and> Select_bookings q \<in> set calls \<and> Count_bookings w \<in> set calls"
  then have run: "ClinicBookingsPage newDate st others currentUser db sp = (out, calls)"
    and qin: "Select_bookings q \<in> set calls" and win: "Count_bookings w \<in> set calls"
    by simp_all
  from run qin obtain usr clinic where
    usr: "currentUser = Some usr"
    and clinic: "find (\<lambda>c. clinics_userId c = user_id usr) (clinics db) = Some clinic"
    and q: "q = request_select newDate others sp (clinics_id clinic)"
    by (rule page_select_call)
  from run win obtain usr' clinic' where
    usr': "currentUser = Some usr'"
    and clinic': "find (\<lambda>c. clinics_userId c = user_id usr') (clinics db) = Some clinic'"
    and w: "w = request_count_where newDate sp (clinics_id clinic')"
    by (rule page_count_call)
  from usr usr' clinic clinic' have same: "clinic' = clinic"
    by simp
  show eq: "q_where q = w"
    using q w same by (simp add: items_where_eq_count_where)
  show "run_count st (bookings db) w = length (filter (where_holds st (q_where q)) (bookings db))"
    using eq by (simp add: run_count_def)
  show "\<forall>items pc n. out = Rendered items pc n \<longrightarrow>
          (\<exists>sorted l off.
             mset sorted = mset (filter (where_holds st (q_where q)) (bookings db))
           \<and> items = take l (drop off sorted))"
  proof (intro allI impI)
    fix items pc n
    assume out: "out = Rendered items pc n"
    from run[unfolded out] obtain usr2 clinic2 where
      "currentUser = Some usr2"
      "find (\<lambda>c. clinics_userId c = user_id usr2) (clinics db) = Some clinic2"
      and n: "n = clinics_id clinic2"
      and sel: "run_select st others (bookings db) (request_select newDate others sp n) = Inr items"
      and "pc = pageCount_of (Fin (of_nat (run_count st (bookings db) (request_count_where newDate sp n))))
            (request_limit sp)"
      and "calls = [FindFirst_clinics (user_id usr2),
              Select_bookings (request_select newDate others sp n),
              Count_bookings (request_count_where newDate sp n)]"
      by (rule page_rendered)
    with usr clinic have n': "n = clinics_id clinic"
      by simp
    from sel obtain l off le where
      "offset_rows st (q_offset (request_select newDate others sp n)) = Some off"
      "term_order st others (q_orderBy (request_select newDate others sp n)) = Some le"
      and items: "items = take l (drop off (order_rows le (filter
                (where_holds st (q_where (request_select newDate others sp n))) (bookings db))))"
      and "\<forall>k. limit_rows st (q_limit (request_select newDate others sp n)) = Some (Some k)
                \<longrightarrow> l = k"
      by (rule run_select_rows)
    let ?sorted = "order_rows le (filter (where_holds st (q_where q)) (bookings db))"
    have "mset ?sorted = mset (filter (where_holds st (q_where q)) (bookings db))"
      by (rule mset_order_rows)
    moreover have "items = take l (drop off ?sorted)"
      using items q n' by simp
    ultimately show "\<exists>sorted l off.
             mset sorted = mset (filter (where_holds st (q_where q)) (bookings db))
           \<and> items = take l (drop off sorted)"
      by blast
  qed
qed

theorem same_filter_twice_witness:
  "request_items_where sample_newDate
      (no_params\<lparr>sp_lastName := Str ''Kowal'', sp_type := Str ''consultation.checkup'',
         sp_email := Str ''@clinic''\<rparr>) 7
     = Some (And [Eq_clinicId 7, Like_lastName ''%Kowal%'',
                  InArray_type [''consultation'', ''checkup''], Like_email ''%@clinic%''])
   \<and> request_count_where sample_newDate
      (no_params\<lparr>sp_lastName := Str ''Kowal'', sp_type := Str ''consultation.checkup'',
         sp_email := Str ''@clinic''\<rparr>) 7
     = Some (And [Eq_clinicId 7, Like_lastName ''%Kowal%'',
                  InArray_type [''consultation'', ''checkup''], Like_email ''%@clinic%''])
   \<and> run_count sample_store (bookings sample_db)
        (Some (And [Eq_clinicId 7, Like_lastName ''%Kowal%'',
                  InArray_type [''consultation'', ''checkup''], Like_email ''%@clinic%''])) = 1"
proof -
  let ?sp = "no_params\<lparr>sp_lastName := Str ''Kowal'', sp_type := Str ''consultation.checkup'',
         sp_email := Str ''@clinic''\<rparr>"
  let ?c = "Some (And [Eq_clinicId 7, Like_lastName ''%Kowal%'',
                  InArray_type [''consultation'', ''checkup''], Like_email ''%@clinic%''])"
  let ?q = "\<lparr>q_limit = Fin 10, q_offset = Fin 0, q_where = ?c, q_orderBy = Desc ''createdAt''\<rparr>"
  have run: "ClinicBookingsPage sample_newDate sample_store no_others (Some \<lparr>user_id = ''user_1''\<rparr>) sample_db ?sp
      = (Rendered [kowalski] (Fin 1) 7,
         [FindFirst_clinics ''user_1'', Select_bookings ?q, Count_bookings ?c])"
    by code_simp
  have i: "request_items_where sample_newDate ?sp 7 = ?c"
    by code_simp
  have n: "length (filter (where_holds sample_store ?c) (bookings sample_db)) = 1"
    by code_simp
  from same_filter_twice[of 7 "sp_lastName ?sp" "types_of (sp_type ?sp)" "sp_email ?sp"
      "day_of sample_newDate (sp_from ?sp)" "day_of sample_newDate (sp_to ?sp)"
      sample_newDate sample_store no_others "Some \<lparr>user_id = ''user_1''\<rparr>" sample_db ?sp
      "Rendered [kowalski] (Fin 1) 7"
      "[FindFirst_clinics ''user_1'', Select_bookings ?q, Count_bookings ?c]" ?q ?c] run i n
  show ?thesis
    by simp
qed

subsection \<open>The creation-date range\<close>

lemma where_mentions_sql_and:
  "where_mentions_createdAt (sql_and cs) \<longleftrightarrow> (\<exists>c. Some c \<in> set cs \<and> mentions_createdAt c)"
proof -
  have "where_mentions_createdAt (sql_and cs)
          \<longleftrightarrow> (\<exists>c \<in> set (List.map_filter (\<lambda>c. c) cs). mentions_createdAt c)"
  proof (cases "List.map_filter (\<lambda>c. c) cs")
    case Nil
    then show ?thesis by (simp add: sql_and_def where_mentions_createdAt_def)
  next
    case (Cons x xs)
    then show ?thesis by (cases xs) (simp_all add: sql_and_def where_mentions_createdAt_def)
  qed
  then show ?thesis by (simp add: set_map_filter_id)
qed

lemma where_mentions_sql_and_list:
  "where_mentions_createdAt (sql_and cs) \<longleftrightarrow> (\<exists>w \<in> set cs. where_mentions_createdAt w)"
  unfolding where_mentions_sql_and
  by (auto simp: where_mentions_createdAt_def split: option.splits)

lemma where_mentions_simps [simp]:
  "where_mentions_createdAt None = False"
  "where_mentions_createdAt (Some c) = mentions_createdAt c"
  by (simp_all add: where_mentions_createdAt_def)

lemma where_mentions_param [simp]:
  "where_mentions_createdAt (case p of Str s \<Rightarrow> Some (Like_lastName (f s)) | _ \<Rightarrow> None) = False"
  "where_mentions_createdAt (case p of Str s \<Rightarrow> Some (Like_email (f s)) | _ \<Rightarrow> None) = False"
  by (cases p; simp add: where_mentions_createdAt_def)+

lemma items_where_mentions_createdAt:
  "where_mentions_createdAt (items_where cid lastName types email fromDay toDay)
     \<longleftrightarrow> fromDay \<noteq> None \<and> toDay \<noteq> None"
proof (cases fromDay)
  case None
  then show ?thesis
    by (simp add: items_where_def where_mentions_sql_and_list)
next
  case (Some f)
  show ?thesis
  proof (cases toDay)
    case None
    then show ?thesis using Some
      by (simp add: items_where_def where_mentions_sql_and_list)
  next
    case (Some t)
    then show ?thesis using \<open>fromDay = Some f\<close>
      by (simp add: items_where_def where_mentions_sql_and_list sql_and_two)
  qed
qed

lemma day_of_eq_None: "day_of newDate p = None \<longleftrightarrow> (\<forall>s. p \<noteq> Str s)"
  by (cases p) (simp_all add: day_of_def)

lemma items_where_one_sided:
  assumes "fromDay = None \<or> toDay = None"
  shows "items_where cid lastName types email fromDay toDay
           = items_where cid lastName types email None None"
proof (cases fromDay)
  case None
  then show ?thesis by (simp add: items_where_def)
next
  case (Some f)
  with assms have "toDay = None" by simp
  with Some show ?thesis by (simp add: items_where_def)
qed

text \<open>
  C10. The condition of the select and the condition of the count compare the creation
  time exactly when \<open>from\<close> and \<open>to\<close> are both strings, and then a row passes
  only with its creation time between the two dates. When they are not both strings, the
  request makes the same calls and has the same outcome as the request with neither of
  them.
\<close>

theorem date_range_needs_both:
  "(where_mentions_createdAt (request_items_where newDate sp cid)
      \<longleftrightarrow> (\<exists>f t. sp_from sp = Str f \<and> sp_to sp = Str t))
   \<and> (where_mentions_createdAt (request_count_where newDate sp cid)
      \<longleftrightarrow> (\<exists>f t. sp_from sp = Str f \<and> sp_to sp = Str t))
   \<and> (sp_from sp = Str f \<and> sp_to sp = Str t
        \<and> where_holds st (request_items_where newDate sp cid) b \<longrightarrow>
          date_le (newDate f) (bookings_createdAt b) \<and> date_ge (newDate t) (bookings_createdAt b))
   \<and> (\<not> (\<exists>f t. sp_from sp = Str f \<and> sp_to sp = Str t) \<longrightarrow>
        ClinicBookingsPage newDate st others currentUser db sp
          = ClinicBookingsPage newDate st others currentUser db
              (sp\<lparr>sp_from := Undefined, sp_to := Undefined\<rparr>))"
proof (intro conjI impI)
  have both: "(day_of newDate (sp_from sp) \<noteq> None \<and> day_of newDate (sp_to sp) \<noteq> None)
      \<longleftrightarrow> (\<exists>f t. sp_from sp = Str f \<and> sp_to sp = Str t)"
    by (auto simp: day_of_eq_None)
  show "where_mentions_createdAt (request_items_where newDate sp cid)
      \<longleftrightarrow> (\<exists>f t. sp_from sp = Str f \<and> sp_to sp = Str t)"
    using both by (simp only: items_where_mentions_createdAt)
  show "where_mentions_createdAt (request_count_where newDate sp cid)
      \<longleftrightarrow> (\<exists>f t. sp_from sp = Str f \<and> sp_to sp = Str t)"
    using both by (simp only: items_where_eq_count_where[symmetric] items_where_mentions_createdAt)
next
  assume a: "sp_from sp = Str f \<and> sp_to sp = Str t
        \<and> where_holds st (request_items_where newDate sp cid) b"
  then have "day_of newDate (sp_from sp) = Some (newDate f)"
    and "day_of newDate (sp_to sp) = Some (newDate t)"
    by (simp_all add: day_of_def)
  with a have "date_le (newDate f) (bookings_createdAt b) \<and> date_ge (newDate t) (bookings_createdAt b)"
    by (simp add: where_holds_items_where)
  then show "date_le (newDate f) (bookings_createdAt b)"
    and "date_ge (newDate t) (bookings_createdAt b)"
    by simp_all
next
  assume "\<not> (\<exists>f t. sp_from sp = Str f \<and> sp_to sp = Str t)"
  then have one: "day_of newDate (sp_from sp) = None \<or> day_of newDate (sp_to sp) = None"
    by (auto simp: day_of_eq_None)
  have none: "day_of newDate Undefined = None"
    by (simp add: day_of_def)
  have w: "request_items_where newDate sp n
             = items_where n (sp_lastName sp) (types_of (sp_type sp)) (sp_email sp) None None" for n
    using items_where_one_sided[OF one] by simp
  then have c: "request_count_where newDate sp n
             = count_where n (sp_lastName sp) (types_of (sp_type sp)) (sp_email sp) None None" for n
    by (simp only: items_where_eq_count_where[symmetric])
  show "ClinicBookingsPage newDate st others currentUser db sp
          = ClinicBookingsPage newDate st others currentUser db
              (sp\<lparr>sp_from := Undefined, sp_to := Undefined\<rparr>)"
  proof (cases currentUser)
    case None
    then show ?thesis by (simp add: page_unfold)
  next
    case (Some usr)
    note usr = this
    show ?thesis
    proof (cases "find (\<lambda>c. clinics_userId c = user_id usr) (clinics db)")
      case None
      then show ?thesis using usr by (simp add: page_unfold)
    next
      case (Some clinic)
      then show ?thesis using usr
        by (simp add: page_unfold w c none split: sum.splits)
    qed
  qed
qed

theorem date_range_needs_both_witness:
  "ClinicBookingsPage sample_newDate sample_store no_others (Some \<lparr>user_id = ''user_1''\<rparr>) sample_db
      (no_params\<lparr>sp_from := Str ''2024-12-31''\<rparr>)
     = (Rendered [nowak, adamska, kowalski] (Fin 1) 7,
        [FindFirst_clinics ''user_1'',
         Select_bookings \<lparr>q_limit = Fin 10, q_offset = Fin 0, q_where = Some (Eq_clinicId 7),
           q_orderBy = Desc ''createdAt''\<rparr>,
         Count_bookings (Some (Eq_clinicId 7))])"
proof -
  let ?sp = "no_params\<lparr>sp_from := Str ''2024-12-31''\<rparr>"
  have one: "\<not> (\<exists>f t. sp_from ?sp = Str f \<and> sp_to ?sp = Str t)"
    by (simp add: no_params_def)
  have same: "?sp\<lparr>sp_from := Undefined, sp_to := Undefined\<rparr> = no_params"
    by (simp add: no_params_def)
  have run: "ClinicBookingsPage sample_newDate sample_store no_others (Some \<lparr>user_id = ''user_1''\<rparr>) sample_db no_params
     = (Rendered [nowak, adamska, kowalski] (Fin 1) 7,
        [FindFirst_clinics ''user_1'',
         Select_bookings \<lparr>q_limit = Fin 10, q_offset = Fin 0, q_where = Some (Eq_clinicId 7),
           q_orderBy = Desc ''createdAt''\<rparr>,
         Count_bookings (Some (Eq_clinicId 7))])"
    by code_simp
  from date_range_needs_both[where newDate = sample_newDate and sp = ?sp and cid = 7
      and st = sample_store and others = no_others and currentUser = "Some \<lparr>user_id = ''user_1''\<rparr>" and db = sample_db]
  have "ClinicBookingsPage sample_newDate sample_store no_others (Some \<lparr>user_id = ''user_1''\<rparr>) sample_db ?sp
          = ClinicBookingsPage sample_newDate sample_store no_others (Some \<lparr>user_id = ''user_1''\<rparr>) sample_db
              (?sp\<lparr>sp_from := Undefined, sp_to := Undefined\<rparr>)"
    using one by blast
  then show ?thesis
    using run same by simp
qed

subsection \<open>Tenant isolation\<close>

lemma items_where_clinic:
  "where_holds st (items_where cid lastName types email fromDay toDay) b \<Longrightarrow> bookings_clinicId b = cid"
  by (simp add: where_holds_items_where)

lemma count_where_clinic:
  "where_holds st (count_where cid lastName types email fromDay toDay) b \<Longrightarrow> bookings_clinicId b = cid"
  using items_where_clinic by (simp only: items_where_eq_count_where[symmetric])

text \<open>
  C1. Whatever the query parameters and whatever the data store makes of them: every
  select and every count of bookings that a request issues carries a condition that only
  rows of one clinic pass, a clinic whose owner is the current user. When the page is
  rendered, the clinic id handed on is the id of such a clinic, every rendered row is a
  booking of the data store with that clinic id, and the count that the page count is
  computed from runs over rows that all have that clinic id.
\<close>

theorem tenant_isolation:
  assumes "ClinicBookingsPage newDate st others currentUser db sp = (out, calls)"
  shows "(\<forall>q. Select_bookings q \<in> set calls \<longrightarrow>
            (\<exists>usr clinic. currentUser = Some usr \<and> clinic \<in> set (clinics db)
               \<and> clinics_userId clinic = user_id usr
               \<and> (\<forall>b. where_holds st (q_where q) b \<longrightarrow> bookings_clinicId b = clinics_id clinic)))
       \<and> (\<forall>w. Count_bookings w \<in> set calls \<longrightarrow>
            (\<exists>usr clinic. currentUser = Some usr \<and> clinic \<in> set (clinics db)
               \<and> clinics_userId clinic = user_id usr
               \<and> (\<forall>b. where_holds st w b \<longrightarrow> bookings_clinicId b = clinics_id clinic)))
       \<and> (\<forall>items pc cid. out = Rendered items pc cid \<longrightarrow>
            (\<exists>usr clinic. currentUser = Some usr \<and> clinic \<in> set (clinics db)
               \<and> clinics_userId clinic = user_id usr \<and> clinics_id clinic = cid)
          \<and> (\<forall>b \<in> set items. b \<in> set (bookings db) \<and> bookings_clinicId b = cid)
          \<and> (\<forall>b. where_holds st (request_count_where newDate sp cid) b \<longrightarrow> bookings_clinicId b = cid)
          \<and> Count_bookings (request_count_where newDate sp cid) \<in> set calls
          \<and> (\<forall>w. Count_bookings w \<in> set calls \<longrightarrow> w = request_count_where newDate sp cid)
          \<and> pc = pageCount_of
                (Fin (of_nat (length (filter (where_holds st (request_count_where newDate sp cid))
                   (bookings db)))))
                (request_limit sp))"
proof -
  have sel: "\<exists>usr clinic. currentUser = Some usr \<and> clinic \<in> set (clinics db)
               \<and> clinics_userId clinic = user_id usr
               \<and> (\<forall>b. where_holds st (q_where q) b \<longrightarrow> bookings_clinicId b = clinics_id clinic)"
    if "Select_bookings q \<in> set calls" for q
  proof -
    from assms that obtain usr clinic where
      usr: "currentUser = Some usr"
      and clinic: "find (\<lambda>c. clinics_userId c = user_id usr) (clinics db) = Some clinic"
      and q: "q = request_select newDate others sp (clinics_id clinic)"
      by (rule page_select_call)
    have "\<forall>b. where_holds st (q_where q) b \<longrightarrow> bookings_clinicId b = clinics_id clinic"
      using q items_where_clinic by auto
    with usr find_clinic_owner[OF clinic] show ?thesis
      by blast
  qed
  have cnt: "\<exists>usr clinic. currentUser = Some usr \<and> clinic \<in> set (clinics db)
               \<and> clinics_userId clinic = user_id usr
               \<and> (\<forall>b. where_holds st w b \<longrightarrow> bookings_clinicId b = clinics_id clinic)"
    if "Count_bookings w \<in> set calls" for w
  proof -
    from assms that obtain usr clinic where
      usr: "currentUser = Some usr"
      and clinic: "find (\<lambda>c. clinics_userId c = user_id usr) (clinics db) = Some clinic"
      and w: "w = request_count_where newDate sp (clinics_id clinic)"
      by (rule page_count_call)
    have "\<forall>b. where_holds st w b \<longrightarrow> bookings_clinicId b = clinics_id clinic"
      using w count_where_clinic by auto
    with usr find_clinic_owner[OF clinic] show ?thesis
      by blast
  qed
  have ren: "(\<exists>usr clinic. currentUser = Some usr \<and> clinic \<in> set (clinics db)
               \<and> clinics_userId clinic = user_id usr \<and> clinics_id clinic = cid)
          \<and> (\<forall>b \<in> set items. b \<in> set (bookings db) \<and> bookings_clinicId b = cid)
          \<and> (\<forall>b. where_holds st (request_count_where newDate sp cid) b \<longrightarrow> bookings_clinicId b = cid)
          \<and> Count_bookings (request_count_where newDate sp cid) \<in> set calls
          \<and> (\<forall>w. Count_bookings w \<in> set calls \<longrightarrow> w = request_count_where newDate sp cid)
          \<and> pc = pageCount_of
                (Fin (of_nat (length (filter (where_holds st (request_count_where newDate sp cid))
                   (bookings db)))))
                (request_limit sp)"
    if out: "out = Rendered items pc cid" for items pc cid
  proof -
    from assms[unfolded out] obtain usr clinic where
      usr: "currentUser = Some usr"
      and clinic: "find (\<lambda>c. clinics_userId c = user_id usr) (clinics db) = Some clinic"
      and cid: "cid = clinics_id clinic"
      and sel: "run_select st others (bookings db) (request_select newDate others sp cid) = Inr items"
      and pc: "pc = pageCount_of (Fin (of_nat (run_count st (bookings db) (request_count_where newDate sp cid))))
              (request_limit sp)"
      and calls: "calls = [FindFirst_clinics (user_id usr),
                Select_bookings (request_select newDate others sp cid),
                Count_bookings (request_count_where newDate sp cid)]"
      by (rule page_rendered)
    from sel obtain l off le where
      "offset_rows st (q_offset (request_select newDate others sp cid)) = Some off"
      "term_order st others (q_orderBy (request_select newDate others sp cid)) = Some le"
      and items: "items = take l (drop off (order_rows le (filter
                (where_holds st (q_where (request_select newDate others sp cid))) (bookings db))))"
      and "\<forall>k. limit_rows st (q_limit (request_select newDate others sp cid)) = Some (Some k)
                \<longrightarrow> l = k"
      by (rule run_select_rows)
    have owner: "\<exists>usr clinic. currentUser = Some usr \<and> clinic \<in> set (clinics db)
              \<and> clinics_userId clinic = user_id usr \<and> clinics_id clinic = cid"
      using usr cid find_clinic_owner[OF clinic] by blast
    have rows: "\<forall>b \<in> set items. b \<in> set (bookings db) \<and> bookings_clinicId b = cid"
    proof
      fix b
      assume "b \<in> set items"
      then have "b \<in> set (order_rows le (filter
                (where_holds st (request_items_where newDate sp cid)) (bookings db)))"
        using items by (auto dest: in_set_takeD in_set_dropD)
      then have "b \<in># mset (order_rows le (filter
                (where_holds st (request_items_where newDate sp cid)) (bookings db)))"
        by simp
      then have "b \<in> set (filter (where_holds st (request_items_where newDate sp cid)) (bookings db))"
        by (simp only: mset_order_rows set_mset_mset)
      then show "b \<in> set (bookings db) \<and> bookings_clinicId b = cid"
        using items_where_clinic by auto
    qed
    have counted: "\<forall>b. where_holds st (request_count_where newDate sp cid) b \<longrightarrow> bookings_clinicId b = cid"
      using count_where_clinic by blast
    have isin: "Count_bookings (request_count_where newDate sp cid) \<in> set calls"
      using calls by simp
    have only: "\<forall>w. Count_bookings w \<in> set calls \<longrightarrow> w = request_count_where newDate sp cid"
      using calls by simp
    have pc': "pc = pageCount_of
                (Fin (of_nat (length (filter (where_holds st (request_count_where newDate sp cid))
                   (bookings db)))))
                (request_limit sp)"
      using pc by (simp only: run_count_def)
    from owner rows counted isin only pc' show ?thesis
      by (intro conjI)
  qed
  from sel cnt ren show ?thesis
    by blast
qed

text \<open>
  An instance: for \<open>per_page=abc\<close> the limit is \<open>NaN\<close>, the sample builder leaves
  it out, and the three bookings of clinic 7 are rendered.
\<close>

theorem tenant_isolation_witness:
  "ClinicBookingsPage sample_newDate sample_store no_others (Some \<lparr>user_id = ''user_1''\<rparr>) sample_db
      (no_params\<lparr>sp_per_page := Str ''abc''\<rparr>)
     = (Rendered [nowak, adamska, kowalski] NaN 7,
        [FindFirst_clinics ''user_1'',
         Select_bookings \<lparr>q_limit = NaN, q_offset = Fin 0, q_where = Some (Eq_clinicId 7),
           q_orderBy = Desc ''createdAt''\<rparr>,
         Count_bookings (Some (Eq_clinicId 7))])
   \<and> map bookings_clinicId [nowak, adamska, kowalski] = [7, 7, 7]
   \<and> clinics_userId \<lparr>clinics_id = 7, clinics_userId = ''user_1''\<rparr> = ''user_1''"
proof -
  let ?sp = "no_params\<lparr>sp_per_page := Str ''abc''\<rparr>"
  have run: "ClinicBookingsPage sample_newDate sample_store no_others (Some \<lparr>user_id = ''user_1''\<rparr>)
      sample_db ?sp
     = (Rendered [nowak, adamska, kowalski] NaN 7,
        [FindFirst_clinics ''user_1'',
         Select_bookings \<lparr>q_limit = NaN, q_offset = Fin 0, q_where = Some (Eq_clinicId 7),
           q_orderBy = Desc ''createdAt''\<rparr>,
         Count_bookings (Some (Eq_clinicId 7))])"
    by code_simp
  from tenant_isolation[OF run]
  have "\<forall>b \<in> set [nowak, adamska, kowalski]. b \<in> set (bookings sample_db) \<and> bookings_clinicId b = 7"
    by blast
  then show ?thesis
    using run by simp
qed

subsection \<open>Sorting\<close>

text \<open>
  C6. The page does not fall back for every column part that is no field of a booking.
  For the sort parameter \<open>constructor.asc\<close> the test \<open>column in bookings\<close> holds, because
  the table object inherits the key \<open>constructor\<close>; the page orders by
  \<open>asc(bookings[column])\<close>, a member that is no column, and not by the descending
  creation time. On the sample data store the rows then come in the order of the table,
  which is by ascending creation time.
\<close>

theorem sort_inherited_key:
  "sort_of (Str ''constructor.asc'') = (Some ''constructor'', Some ''asc'')
   \<and> bookings_member others ''constructor'' = Some NoColumn
   \<and> key_in_bookings others ''constructor''
   \<and> orderBy_of others (Some ''constructor'') (Some ''asc'') = Asc ''constructor''
   \<and> orderBy_of others (Some ''constructor'') (Some ''asc'') \<noteq> Desc ''createdAt''
   \<and> ClinicBookingsPage sample_newDate sample_store no_others (Some \<lparr>user_id = ''user_1''\<rparr>)
        sample_db (no_params\<lparr>sp_sort := Str ''constructor.asc''\<rparr>)
       = (Rendered [kowalski, adamska, nowak] (Fin 1) 7,
          [FindFirst_clinics ''user_1'',
           Select_bookings \<lparr>q_limit = Fin 10, q_offset = Fin 0, q_where = Some (Eq_clinicId 7),
             q_orderBy = Asc ''constructor''\<rparr>,
           Count_bookings (Some (Eq_clinicId 7))])
   \<and> map bookings_createdAt [kowalski, adamska, nowak]
       = [1706745600000, 1709251200000, 1714521600000]"
proof -
  have split: "sort_of (Str ''constructor.asc'') = (Some ''constructor'', Some ''asc'')"
    by code_simp
  have member: "bookings_member others ''constructor'' = Some NoColumn"
    by (simp add: bookings_member_def Object_prototype_keys_def)
  then have key: "key_in_bookings others ''constructor''"
    by (simp add: key_in_bookings_def)
  then have ob: "orderBy_of others (Some ''constructor'') (Some ''asc'') = Asc ''constructor''"
    by (simp add: orderBy_of_def)
  have run: "ClinicBookingsPage sample_newDate sample_store no_others (Some \<lparr>user_id = ''user_1''\<rparr>)
        sample_db (no_params\<lparr>sp_sort := Str ''constructor.asc''\<rparr>)
       = (Rendered [kowalski, adamska, nowak] (Fin 1) 7,
          [FindFirst_clinics ''user_1'',
           Select_bookings \<lparr>q_limit = Fin 10, q_offset = Fin 0, q_where = Some (Eq_clinicId 7),
             q_orderBy = Asc ''constructor''\<rparr>,
           Count_bookings (Some (Eq_clinicId 7))])"
    by code_simp
  have times: "map bookings_createdAt [kowalski, adamska, nowak]
       = [1706745600000, 1709251200000, 1714521600000]"
    by (simp add: kowalski_def adamska_def nowak_def)
  from split member key ob run times show ?thesis
    by simp
qed

subsection \<open>The filter\<close>








end
